theory Spec2Isabelle
  imports Main "HOL-Library.Word"
begin

section \<open>WheatCommand.cpp: the frame codec and the command parser\<close>

text \<open>
  A \<^verbatim>\<open>const char*\<close> argument is modelled by the bytes that precede its terminating NUL,
  so \<open>length buf\<close> is \<^verbatim>\<open>strlen(buf)\<close> and position \<open>length buf\<close> holds the terminator.
  The counters \<^verbatim>\<open>l\<close>, \<^verbatim>\<open>r\<close> (\<^verbatim>\<open>int\<close>) and \<^verbatim>\<open>len\<close> (\<^verbatim>\<open>size_t\<close>) are natural numbers and
  \<^verbatim>\<open>pieces\<close>, \<^verbatim>\<open>remainKnives\<close> are integers: for \<^verbatim>\<open>pieces \<ge> 0\<close> and a buffer shorter than
  \<open>2^31 - 2\<close> bytes (the server reads frames of at most 4096 bytes) none of them leaves the
  range of a 32-bit \<^verbatim>\<open>int\<close>, so no wrap-around is written out.

  What C++ leaves undefined or raises is a value of \<open>error\<close>: a read past the end of a
  buffer or of a \<^verbatim>\<open>std::vector\<close> (\<open>OutOfBounds\<close>), \<^verbatim>\<open>std::out_of_range\<close> thrown by
  \<^verbatim>\<open>std::string::substr\<close> (\<open>OutOfRange\<close>), and a number that \<^verbatim>\<open>atoi\<close> cannot represent
  (\<open>IntOverflow\<close>).
\<close>

datatype error = OutOfBounds | OutOfRange | IntOverflow

text \<open>\<^verbatim>\<open>buf[r]\<close> on a NUL-terminated buffer.\<close>

definition buf_at :: "string \<Rightarrow> nat \<Rightarrow> error + char" where
  "buf_at buf r =
     (if r < length buf then Inr (buf ! r)
      else if r = length buf then Inr (CHR 0x00)
      else Inl OutOfBounds)"

text \<open>\<^verbatim>\<open>std::string::substr(pos, n)\<close> and \<^verbatim>\<open>substr(pos)\<close>: both throw when \<open>pos > size()\<close>.\<close>

definition substr :: "string \<Rightarrow> nat \<Rightarrow> nat \<Rightarrow> error + string" where
  "substr s pos n = (if length s < pos then Inl OutOfRange else Inr (take n (drop pos s)))"

definition substr_from :: "string \<Rightarrow> nat \<Rightarrow> error + string" where
  "substr_from s pos = (if length s < pos then Inl OutOfRange else Inr (drop pos s))"

text \<open>\<^verbatim>\<open>std::vector::operator[]\<close>: an index outside the vector is undefined behaviour.\<close>

definition vector_at :: "'a list \<Rightarrow> nat \<Rightarrow> error + 'a" where
  "vector_at v i = (if i < length v then Inr (v ! i) else Inl OutOfBounds)"

text \<open>
  The \<^verbatim>\<open>for (int r = 0; r <= len; r++)\<close> loop of the four-argument \<^verbatim>\<open>CutMessage\<close>
  (WheatCommand.cpp:78-93), with the loop variables as arguments.
\<close>

function CutMessage_loop ::
  "string \<Rightarrow> nat \<Rightarrow> char \<Rightarrow> int \<Rightarrow> nat \<Rightarrow> nat \<Rightarrow> string list \<Rightarrow> error + string list" where
  "CutMessage_loop buf len delimiterChar remainKnives l r result =
     (if r \<le> len then
        (case buf_at buf r of
           Inl e \<Rightarrow> Inl e
         | Inr c \<Rightarrow>
             if c = delimiterChar \<or> r = len then
               (if remainKnives = 0 then
                  (case substr_from buf l of
                     Inl e \<Rightarrow> Inl e
                   | Inr piece \<Rightarrow> Inr (result @ [piece]))
                else
                  (case substr buf l (r - l) of
                     Inl e \<Rightarrow> Inl e
                   | Inr piece \<Rightarrow>
                       CutMessage_loop buf len delimiterChar (remainKnives - 1) (r + 1) (r + 1)
                         (result @ [piece])))
             else CutMessage_loop buf len delimiterChar remainKnives l (r + 1) result)
      else Inr result)"
  by pat_completeness auto
termination
  by (relation "measure (\<lambda>(buf, len, d, k, l, r, res). Suc len - r)") auto

declare CutMessage_loop.simps [simp del]

text \<open>The four-argument overload (WheatCommand.cpp:65-96).\<close>

definition CutMessage_len :: "string \<Rightarrow> nat \<Rightarrow> char \<Rightarrow> int \<Rightarrow> error + string list" where
  "CutMessage_len buf len delimiterChar pieces =
     (if pieces = 1 then Inr [buf]
      else CutMessage_loop buf len delimiterChar (pieces - 1) 0 0 [])"

text \<open>The three-argument overload (WheatCommand.cpp:60-63) passes \<^verbatim>\<open>strlen(buf)\<close>.\<close>

definition CutMessage :: "string \<Rightarrow> char \<Rightarrow> int \<Rightarrow> error + string list" where
  "CutMessage buf delimiterChar pieces = CutMessage_len buf (length buf) delimiterChar pieces"

text \<open>
  Modelled from the spec: the declaration of \<^verbatim>\<open>CutMessage\<close> in WheatCommand.h is missing,
  and with it the default argument of \<^verbatim>\<open>pieces\<close>, which the two-argument call at
  WheatCommand.cpp:45 relies on. The value is the spec's \<^verbatim>\<open>maxFields == 0\<close>, the mode that
  "splits on every delimiter occurrence"; the comment at WheatCommand.cpp:83 names
  \<^verbatim>\<open>pieces = 0\<close> as the default that cuts everything.
\<close>

definition CutMessage_default_pieces :: int where
  "CutMessage_default_pieces = 0"

text \<open>
  \<^verbatim>\<open>atoi\<close> of the C library: white space is skipped, one sign is accepted, the longest run
  of decimal digits is read, and anything else ends the number (no digits give 0). A value
  outside the 32-bit \<^verbatim>\<open>int\<close> is undefined behaviour in C.
\<close>

definition isspace :: "char \<Rightarrow> bool" where
  "isspace c = (c = CHR '' '' \<or> c = CHR 0x09 \<or> c = CHR 0x0A \<or> c = CHR 0x0B
                \<or> c = CHR 0x0C \<or> c = CHR 0x0D)"

definition isdigit :: "char \<Rightarrow> bool" where
  "isdigit c = (of_char (CHR ''0'') \<le> (of_char c :: nat) \<and> (of_char c :: nat) \<le> of_char (CHR ''9''))"

fun atoi_digits :: "int \<Rightarrow> string \<Rightarrow> int" where
  "atoi_digits acc [] = acc"
| "atoi_digits acc (c # cs) =
     (if isdigit c then atoi_digits (acc * 10 + (of_char c - of_char (CHR ''0''))) cs else acc)"

definition atoi :: "string \<Rightarrow> error + int" where
  "atoi s =
     (let s1 = dropWhile isspace s;
          v = (case s1 of
                 [] \<Rightarrow> 0
               | c # cs \<Rightarrow>
                   if c = CHR ''-'' then - atoi_digits 0 cs
                   else if c = CHR ''+'' then atoi_digits 0 cs
                   else atoi_digits 0 s1)
      in if - (2 ^ 31) \<le> v \<and> v < 2 ^ 31 then Inr v else Inl IntOverflow)"

text \<open>
  The enumeration and the command structure are declared in WheatCommand.h, which is
  missing; their members are the ones WheatCommand.cpp uses. \<^verbatim>\<open>nParam\<close> is an array of
  \<^verbatim>\<open>int\<close> of unknown size, here a function from the index.
\<close>

datatype WheatCommandType =
    WheatCommandType_name
  | WheatCommandType_type
  | WheatCommandType_sleep
  | WheatCommandType_getup
  | WheatCommandType_chat
  | WheatCommandType_move
  | WheatCommandType_pos
  | WheatCommandType_unknown

record WheatCommand =
  type :: WheatCommandType
  nParam :: "nat \<Rightarrow> int"
  strParam :: string

text \<open>\<^verbatim>\<open>strcmp(sz, "...") == 0\<close> is equality of the two C strings (WheatCommand.cpp:98-119).\<close>

definition GetCommandTypeFromString :: "string \<Rightarrow> WheatCommandType" where
  "GetCommandTypeFromString sz =
     (if sz = ''name'' then WheatCommandType_name
      else if sz = ''type'' then WheatCommandType_type
      else if sz = ''sleep'' then WheatCommandType_sleep
      else if sz = ''getup'' then WheatCommandType_getup
      else if sz = ''chat'' then WheatCommandType_chat
      else if sz = ''move'' then WheatCommandType_move
      else if sz = ''pos'' then WheatCommandType_pos
      else WheatCommandType_unknown)"

text \<open>
  The \<^verbatim>\<open>move\<close>/\<^verbatim>\<open>pos\<close> case of \<^verbatim>\<open>Parse\<close> (WheatCommand.cpp:42-49): the statements run in the
  order of the source, so the first failing one decides the error.
\<close>

definition Parse_pos :: "WheatCommand \<Rightarrow> string \<Rightarrow> error + WheatCommand" where
  "Parse_pos resultCommand payload =
     (case CutMessage payload (CHR '','') CutMessage_default_pieces of
        Inl e \<Rightarrow> Inl e
      | Inr vecPosCutTemp \<Rightarrow>
          (case vector_at vecPosCutTemp 0 of
             Inl e \<Rightarrow> Inl e
           | Inr field0 \<Rightarrow>
               (case atoi field0 of
                  Inl e \<Rightarrow> Inl e
                | Inr n0 \<Rightarrow>
                    (case vector_at vecPosCutTemp 1 of
                       Inl e \<Rightarrow> Inl e
                     | Inr field1 \<Rightarrow>
                         (case atoi field1 of
                            Inl e \<Rightarrow> Inl e
                          | Inr n1 \<Rightarrow>
                              Inr (resultCommand
                                    \<lparr>nParam := ((nParam resultCommand)(0 := n0))(1 := n1)\<rparr>))))))"

text \<open>
  \<^verbatim>\<open>Parse\<close> (WheatCommand.cpp:6-53). \<open>resultCommand\<close> is the default-constructed
  \<^verbatim>\<open>WheatCommand\<close> of line 8; the constructor is in the missing header, so its value is an
  argument.
\<close>

definition Parse :: "WheatCommand \<Rightarrow> string \<Rightarrow> error + WheatCommand" where
  "Parse resultCommand buf =
     (case CutMessage buf (CHR ''$'') 2 of
        Inl e \<Rightarrow> Inl e
      | Inr vecCuttedBuf \<Rightarrow>
          if length vecCuttedBuf \<le> 1 then Inr (resultCommand\<lparr>type := WheatCommandType_unknown\<rparr>)
          else
            (let resultCommand = resultCommand\<lparr>type := GetCommandTypeFromString (vecCuttedBuf ! 0)\<rparr>
             in case type resultCommand of
                  WheatCommandType_name \<Rightarrow> Inr (resultCommand\<lparr>strParam := vecCuttedBuf ! 1\<rparr>)
                | WheatCommandType_type \<Rightarrow>
                    (case atoi (vecCuttedBuf ! 1) of
                       Inl e \<Rightarrow> Inl e
                     | Inr n \<Rightarrow> Inr (resultCommand\<lparr>nParam := (nParam resultCommand)(0 := n)\<rparr>))
                | WheatCommandType_sleep \<Rightarrow>
                    (case atoi (vecCuttedBuf ! 1) of
                       Inl e \<Rightarrow> Inl e
                     | Inr n \<Rightarrow> Inr (resultCommand\<lparr>nParam := (nParam resultCommand)(0 := n)\<rparr>))
                | WheatCommandType_getup \<Rightarrow> Inr resultCommand
                | WheatCommandType_chat \<Rightarrow> Inr (resultCommand\<lparr>strParam := vecCuttedBuf ! 1\<rparr>)
                | WheatCommandType_move \<Rightarrow> Parse_pos resultCommand (vecCuttedBuf ! 1)
                | WheatCommandType_pos \<Rightarrow> Parse_pos resultCommand (vecCuttedBuf ! 1)
                | WheatCommandType_unknown \<Rightarrow> Inr resultCommand))"

text \<open>\<^verbatim>\<open>MakeMessage\<close> (WheatCommand.cpp:55-58); \<open>None\<close> is the null pointer.\<close>

definition MakeMessage :: "WheatCommand \<Rightarrow> string option" where
  "MakeMessage command = None"


section \<open>sleeper.cpp: the connection actor\<close>

text \<open>
  Modelled from the spec: \<^verbatim>\<open>wheat_command.h\<close>, which declares the command variant, its
  alternatives, \<^verbatim>\<open>ParseCommand\<close> and \<^verbatim>\<open>PackCommandWithId\<close>, is missing. The alternatives are
  the ones sleeper.cpp constructs or visits, plus the spec's \<^verbatim>\<open>Unknown{}\<close>; a position is the
  spec's pair \<^verbatim>\<open>{x:int, y:int}\<close>. \<^verbatim>\<open>ParseCommand\<close> and \<^verbatim>\<open>PackCommandWithId\<close> are arguments of
  the functions that call them.
\<close>

type_synonym SleeperId = int

type_synonym Pos = "int \<times> int"

datatype Command =
    CmdSleeper SleeperId
  | CmdName string
  | CmdType int
  | CmdSleep int
  | CmdGetup
  | CmdChat string
  | CmdPos Pos
  | CmdMove Pos
  | CmdVoteKickStart SleeperId
  | CmdVoteAgree
  | CmdVoteRefuse
  | CmdUnknown

type_synonym address_v4 = "32 word"

text \<open>
  The room, the socket, the timer, the traffic recorder and the logger are objects outside
  the actor. A call to one of them is recorded as an event, in the order of the calls; each
  function of the actor returns the events it causes next to the new state of the actor.
\<close>

datatype LogLevel = LOG_DEBUG | LOG_INFO | LOG_WARN

datatype Event =
    Log LogLevel
  | Room_Leave SleeperId
  | Room_Sleep SleeperId int
  | Room_GetUp SleeperId
  | Room_Deliver SleeperId string
  | Room_VoteKickStart SleeperId
  | Room_Agree SleeperId
  | Room_Refuse SleeperId
  | Sock_close
  | Timer_cancel
  | Timer_cancel_one
  | OnData address_v4 nat
  | OnConnectionClose address_v4

record Sleeper =
  m_id :: SleeperId
  m_ip :: address_v4
  m_name :: string
  m_sex :: int
  m_pos :: Pos
  m_bed_id :: int
  m_write_msgs :: "string list"
  m_is_stoped :: bool

text \<open>\<^verbatim>\<open>Sleeper::Deliver\<close> (sleeper.cpp:64-68).\<close>

definition Deliver :: "Sleeper \<Rightarrow> string \<Rightarrow> Sleeper \<times> Event list" where
  "Deliver s msg = (s\<lparr>m_write_msgs := m_write_msgs s @ [msg]\<rparr>, [Timer_cancel_one])"

text \<open>\<^verbatim>\<open>Sleeper::MakeSelfInfo\<close> (sleeper.cpp:70-88), one binding for each \<^verbatim>\<open>info += ...\<close>.\<close>

definition MakeSelfInfo :: "(SleeperId \<Rightarrow> Command \<Rightarrow> string) \<Rightarrow> Sleeper \<Rightarrow> string" where
  "MakeSelfInfo PackCommandWithId s =
     (let make_cmd_str = (\<lambda>cmd. PackCommandWithId (m_id s) cmd);
          info0 = [];
          info1 = info0 @ make_cmd_str (CmdSleeper (m_id s));
          info2 = info1 @ make_cmd_str (CmdName (m_name s));
          info3 = info2 @ make_cmd_str (CmdType (m_sex s))
      in if m_bed_id s \<noteq> - 1
         then info3 @ make_cmd_str (CmdSleep (m_bed_id s))
         else info3 @ make_cmd_str (CmdPos (m_pos s)))"

text \<open>
  The \<^verbatim>\<open>std::visit\<close> of \<^verbatim>\<open>Sleeper::Reader\<close> (sleeper.cpp:108-136). \<open>room_Sleep\<close> is the answer
  of \<^verbatim>\<open>Room::Sleep\<close>. The result is the new state, the events and the flag \<^verbatim>\<open>forward\<close>.
\<close>

fun Reader_visit ::
  "(SleeperId \<Rightarrow> int \<Rightarrow> bool) \<Rightarrow> Sleeper \<Rightarrow> Command \<Rightarrow> Sleeper \<times> Event list \<times> bool" where
  "Reader_visit room_Sleep s (CmdSleep bed_id) =
     (if room_Sleep (m_id s) bed_id
      then (s\<lparr>m_bed_id := bed_id\<rparr>, [Room_Sleep (m_id s) bed_id], True)
      else (s, [Room_Sleep (m_id s) bed_id], False))"
| "Reader_visit room_Sleep s CmdGetup = (s, [Room_GetUp (m_id s)], True)"
| "Reader_visit room_Sleep s (CmdName name) = (s\<lparr>m_name := name\<rparr>, [Log LOG_INFO], True)"
| "Reader_visit room_Sleep s (CmdType sex) = (s\<lparr>m_sex := sex\<rparr>, [Log LOG_INFO], True)"
| "Reader_visit room_Sleep s (CmdChat msg) = (s, [Log LOG_INFO], True)"
| "Reader_visit room_Sleep s (CmdPos pos) = (s\<lparr>m_pos := pos\<rparr>, [], True)"
| "Reader_visit room_Sleep s (CmdMove pos) = (s\<lparr>m_pos := pos\<rparr>, [], True)"
| "Reader_visit room_Sleep s (CmdVoteKickStart kick_id) = (s, [Room_VoteKickStart kick_id], True)"
| "Reader_visit room_Sleep s CmdVoteAgree = (s, [Room_Agree (m_id s)], False)"
| "Reader_visit room_Sleep s CmdVoteRefuse = (s, [Room_Refuse (m_id s)], False)"
| "Reader_visit room_Sleep s _ = (s, [], True)"

text \<open>
  One turn of the loop of \<^verbatim>\<open>Sleeper::Reader\<close> after a successful read of \<open>n\<close> bytes into
  \<open>buffer\<close> (sleeper.cpp:100-144). An exception of \<^verbatim>\<open>ParseCommand\<close> is the value \<open>Inl\<close>,
  caught and logged by the inner handler.
\<close>

definition Reader_frame ::
  "(string \<Rightarrow> string + Command) \<Rightarrow> (SleeperId \<Rightarrow> int \<Rightarrow> bool) \<Rightarrow> Sleeper \<Rightarrow> string \<Rightarrow> nat
     \<Rightarrow> Sleeper \<times> Event list" where
  "Reader_frame ParseCommand room_Sleep s buffer n =
     (let msg = take n buffer;
          before = [OnData (m_ip s) (n * 8), Log LOG_DEBUG]
      in case ParseCommand msg of
           Inl what \<Rightarrow> (s, before @ [Log LOG_WARN])
         | Inr cmd \<Rightarrow>
             (case Reader_visit room_Sleep s cmd of
                (s', events, forward) \<Rightarrow>
                  (s', before @ events @ (if forward then [Room_Deliver (m_id s') msg] else []))))"

text \<open>\<^verbatim>\<open>Sleeper::Stop\<close> (sleeper.cpp:184-195).\<close>

definition Stop :: "Sleeper \<Rightarrow> Sleeper \<times> Event list" where
  "Stop s =
     (if m_is_stoped s then (s, [])
      else (s\<lparr>m_is_stoped := True\<rparr>,
            [Log LOG_INFO, Room_Leave (m_id s), Sock_close, Timer_cancel,
             OnConnectionClose (m_ip s)]))"

section \<open>Notions of the specification\<close>

text \<open>
  The fields of a buffer, by recursion on the text still to be scanned: \<open>cur\<close> is the field
  being read and \<open>k\<close> the number of cuts left. It describes the result of the loop of
  \<^verbatim>\<open>CutMessage\<close> (lemma \<open>CutMessage_fields\<close>).
\<close>

fun fields_from :: "char \<Rightarrow> int \<Rightarrow> string \<Rightarrow> string \<Rightarrow> string list" where
  "fields_from d k cur [] = [cur]"
| "fields_from d k cur (c # cs) =
     (if k = 0 then [cur @ c # cs]
      else if c = d then cur # fields_from d (k - 1) [] cs
      else fields_from d k (cur @ [c]) cs)"

text \<open>Joining fields with the delimiter as separator.\<close>

fun join :: "char \<Rightarrow> string list \<Rightarrow> string" where
  "join d [] = []"
| "join d [f] = f"
| "join d (f # g # fs) = f @ d # join d (g # fs)"

text \<open>The index of the \<open>k\<close>-th occurrence (counted from 1) of the delimiter.\<close>

fun nth_delimiter :: "char \<Rightarrow> nat \<Rightarrow> string \<Rightarrow> nat option" where
  "nth_delimiter d k [] = None"
| "nth_delimiter d k (c # cs) =
     (if c = d \<and> k = 1 then Some 0
      else map_option Suc (nth_delimiter d (if c = d then k - 1 else k) cs))"

text \<open>The text after the last delimiter: the whole text when it has none.\<close>

definition after_last_delimiter :: "char \<Rightarrow> string \<Rightarrow> string" where
  "after_last_delimiter d s = rev (takeWhile (\<lambda>c. c \<noteq> d) (rev s))"


text \<open>The frames handed to \<^verbatim>\<open>Room::Deliver\<close> among a list of events, with the sender.\<close>

fun deliveries :: "Event list \<Rightarrow> (SleeperId \<times> string) list" where
  "deliveries [] = []"
| "deliveries (Room_Deliver i msg # es) = (i, msg) # deliveries es"
| "deliveries (e # es) = deliveries es"

text \<open>The token table of the parser.\<close>

definition tokens :: "string list" where
  "tokens = [''name'', ''type'', ''sleep'', ''getup'', ''chat'', ''move'', ''pos'']"

text \<open>A default-constructed command and an actor, for the concrete instances below.\<close>

definition command0 :: WheatCommand where
  "command0 = \<lparr>type = WheatCommandType_unknown, nParam = (\<lambda>i. 0), strParam = []\<rparr>"

definition sleeper0 :: Sleeper where
  "sleeper0 = \<lparr>m_id = 10000, m_ip = 2130706433, m_name = ''Zed'', m_sex = 1, m_pos = (1, 1),
               m_bed_id = - 1, m_write_msgs = [], m_is_stoped = False\<rparr>"

section \<open>The loop of CutMessage computes the fields\<close>

lemma fields_from_zero: "fields_from d 0 cur rest = [cur @ rest]"
  by (cases rest) simp_all

lemma fields_from_nonempty: "fields_from d k cur rest \<noteq> []"
  by (induction rest arbitrary: k cur) auto

lemma CutMessage_loop_past_end:
  "len < r \<Longrightarrow> CutMessage_loop buf len d k l r res = Inr res"
  by (subst CutMessage_loop.simps) simp

lemma join_Cons: "fs \<noteq> [] \<Longrightarrow> join d (f # fs) = f @ d # join d fs"
  by (cases fs) simp_all

lemma join_fields_from: "join d (fields_from d k cur rest) = cur @ rest"
  by (induction rest arbitrary: k cur) (simp_all add: join_Cons fields_from_nonempty)

lemma length_fields_from: "0 \<le> k \<Longrightarrow> length (fields_from d k cur rest) \<le> nat k + 1"
proof (induction rest arbitrary: k cur)
  case Nil
  then show ?case by simp
next
  case (Cons c cs)
  show ?case
  proof (cases "k = 0")
    case True
    then show ?thesis by simp
  next
    case False
    with Cons.prems have "0 \<le> k - 1" by simp
    from Cons.IH[OF this, of "[]"] Cons.IH[OF Cons.prems, of "cur @ [c]"] False Cons.prems
    show ?thesis by (auto simp: nat_diff_distrib)
  qed
qed

lemma length_fields_from_few:
  "int (count_list rest d) < k \<Longrightarrow> length (fields_from d k cur rest) = count_list rest d + 1"
  by (induction rest arbitrary: k cur) auto

lemma after_last_delimiter_Cons:
  "after_last_delimiter d (c # cs) =
     (if d \<in> set cs then after_last_delimiter d cs
      else if c = d then cs else c # cs)"
  by (auto simp: after_last_delimiter_def takeWhile_append)

lemma after_last_delimiter_none:
  assumes "d \<notin> set s"
  shows "after_last_delimiter d s = s"
proof -
  have "takeWhile (\<lambda>c. c \<noteq> d) (rev s) = rev s"
    using assms by (auto simp: takeWhile_eq_all_conv)
  then show ?thesis
    unfolding after_last_delimiter_def by (simp only: rev_rev_ident)
qed

lemma last_fields_from_few:
  "int (count_list rest d) < k \<Longrightarrow>
   last (fields_from d k cur rest) =
     (if d \<in> set rest then after_last_delimiter d rest else cur @ rest)"
proof (induction rest arbitrary: k cur)
  case Nil
  then show ?case by simp
next
  case (Cons c cs)
  then show ?case
    by (auto simp: after_last_delimiter_Cons fields_from_nonempty)
qed

lemma last_fields_from_full:
  "1 \<le> k \<Longrightarrow> length (fields_from d k cur rest) = nat k + 1 \<Longrightarrow>
   \<exists>p. nth_delimiter d (nat k) rest = Some p \<and> last (fields_from d k cur rest) = drop (p + 1) rest"
proof (induction rest arbitrary: k cur)
  case Nil
  then show ?case by simp
next
  case (Cons c cs)
  show ?case
  proof (cases "c = d")
    case False
    with Cons.prems have "length (fields_from d k (cur @ [c]) cs) = nat k + 1" by simp
    from Cons.IH[OF Cons.prems(1) this] False Cons.prems(1)
    show ?thesis by auto
  next
    case True
    show ?thesis
    proof (cases "k = 1")
      case True
      with \<open>c = d\<close> show ?thesis by (simp add: fields_from_zero)
    next
      case False
      with Cons.prems(1) have k: "1 \<le> k - 1" by simp
      have "length (fields_from d (k - 1) [] cs) = nat (k - 1) + 1"
        using Cons.prems \<open>c = d\<close> False by (simp add: nat_diff_distrib)
      from Cons.IH[OF k this] obtain p where
        p: "nth_delimiter d (nat (k - 1)) cs = Some p"
           "last (fields_from d (k - 1) [] cs) = drop (p + 1) cs"
        by blast
      have "nat k \<noteq> 1" using False Cons.prems(1) by simp
      moreover have "nat k - 1 = nat (k - 1)" using Cons.prems(1) by (simp add: nat_diff_distrib)
      ultimately show ?thesis
        using p \<open>c = d\<close> False Cons.prems(1)
        by (simp add: fields_from_nonempty)
    qed
  qed
qed

lemma CutMessage_loop_fields:
  "l \<le> r \<Longrightarrow> r \<le> length buf \<Longrightarrow> len = length buf \<Longrightarrow>
   CutMessage_loop buf len d k l r res =
     Inr (res @ fields_from d k (take (r - l) (drop l buf)) (drop r buf))"
proof (induction buf len d k l r res rule: CutMessage_loop.induct)
  case (1 buf len d k l r res)
  let ?cur = "take (r - l) (drop l buf)"
  show ?case
  proof (cases "r < length buf")
    case inside: True
    then have at: "buf_at buf r = Inr (buf ! r)"
      by (simp add: buf_at_def)
    have rest: "drop r buf = buf ! r # drop (Suc r) buf"
      using inside by (simp add: Cons_nth_drop_Suc)
    have whole: "?cur @ drop r buf = drop l buf"
      using "1.prems"(1) by (metis append_take_drop_id drop_drop le_add_diff_inverse2)
    show ?thesis
    proof (cases "buf ! r = d")
      case delim: True
      show ?thesis
      proof (cases "k = 0")
        case True
        then show ?thesis
          using "1.prems" inside at whole
          by (subst CutMessage_loop.simps) (simp add: substr_from_def fields_from_zero delim)
      next
        case False
        have "CutMessage_loop buf len d (k - 1) (r + 1) (r + 1) (res @ [?cur]) =
              Inr ((res @ [?cur]) @ fields_from d (k - 1) (take (r + 1 - (r + 1)) (drop (r + 1) buf)) (drop (r + 1) buf))"
          using "1.IH"(1)[OF _ at _ False, of ?cur] "1.prems" inside delim
          by (simp add: substr_def)
        then show ?thesis
          using "1.prems" inside at rest False delim
          by (subst CutMessage_loop.simps) (simp add: substr_def)
      qed
    next
      case nodelim: False
      have step: "take (r + 1 - l) (drop l buf) = ?cur @ [buf ! r]"
        using "1.prems"(1) inside
        by (simp add: Suc_diff_le take_Suc_conv_app_nth) 
      have "CutMessage_loop buf len d k l (r + 1) res =
            Inr (res @ fields_from d k (take (r + 1 - l) (drop l buf)) (drop (r + 1) buf))"
        using "1.IH"(2)[OF _ at] "1.prems" inside nodelim by simp
      then show ?thesis
        using "1.prems" inside at rest nodelim step whole
        by (subst CutMessage_loop.simps) (simp add: fields_from_zero)
    qed
  next
    case False
    with "1.prems" have r: "r = length buf" by simp
    then have at: "buf_at buf r = Inr (CHR 0x00)"
      by (simp add: buf_at_def)
    have cur: "?cur = drop l buf"
      using r by simp
    show ?thesis
      using "1.prems" r at
      by (subst CutMessage_loop.simps)
         (simp add: substr_def substr_from_def CutMessage_loop_past_end)
  qed
qed

lemma CutMessage_fields:
  "CutMessage buf d pieces = Inr (fields_from d (pieces - 1) [] buf)"
  by (simp add: CutMessage_def CutMessage_len_def CutMessage_loop_fields fields_from_zero)


section \<open>The frame codec\<close>

text \<open>
  Claim C2. For every input and every \<open>maxFields \<ge> 2\<close>, \<^verbatim>\<open>CutMessage\<close> returns a result, with at
  least one and at most \<open>maxFields\<close> fields. If it returns exactly \<open>maxFields\<close> fields, the
  input has a \<open>(maxFields - 1)\<close>-th delimiter, at some index \<open>p\<close>, and the last field is the
  input from index \<open>p + 1\<close> on, later delimiters included. If the input has fewer than
  \<open>maxFields - 1\<close> delimiters, the result has fewer than \<open>maxFields\<close> fields (one more than
  there are delimiters) and its last field is the text after the last delimiter.
\<close>

theorem CutMessage_bounded:
  assumes "2 \<le> maxFields"
  shows "\<exists>fs. CutMessage s d maxFields = Inr fs \<and> fs \<noteq> [] \<and> int (length fs) \<le> maxFields \<and>
           (int (length fs) = maxFields \<longrightarrow>
              (\<exists>p. nth_delimiter d (nat (maxFields - 1)) s = Some p \<and> last fs = drop (p + 1) s)) \<and>
           (int (count_list s d) < maxFields - 1 \<longrightarrow>
              int (length fs) < maxFields \<and> length fs = count_list s d + 1 \<and>
              last fs = after_last_delimiter d s)"
proof -
  let ?fs = "fields_from d (maxFields - 1) [] s"
  have bound: "int (length ?fs) \<le> maxFields"
    using length_fields_from[of "maxFields - 1" d "[]" s] assms by simp
  have full: "\<exists>p. nth_delimiter d (nat (maxFields - 1)) s = Some p \<and> last ?fs = drop (p + 1) s"
    if "int (length ?fs) = maxFields"
    using last_fields_from_full[of "maxFields - 1" d "[]" s] assms that by simp
  have few: "int (length ?fs) < maxFields \<and> length ?fs = count_list s d + 1 \<and>
             last ?fs = after_last_delimiter d s"
    if "int (count_list s d) < maxFields - 1"
  proof -
    have "last ?fs = after_last_delimiter d s"
      using last_fields_from_few[OF that, of "[]"]
      by (simp add: after_last_delimiter_none)
    then show ?thesis
      using length_fields_from_few[OF that, of "[]"] that by simp
  qed
  show ?thesis
    using bound full few by (simp add: CutMessage_fields fields_from_nonempty)
qed

theorem CutMessage_bounded_witness:
  "(2::int) \<le> 2 \<and> CutMessage ''a$b$c'' (CHR ''$'') 2 = Inr [''a'', ''b$c''] \<and>
   nth_delimiter (CHR ''$'') (nat (2 - 1)) ''a$b$c'' = Some 1 \<and>
   (2::int) \<le> 4 \<and> int (count_list ''a$b$c'' (CHR ''$'')) < 4 - 1 \<and>
   CutMessage ''a$b$c'' (CHR ''$'') 4 = Inr [''a'', ''b'', ''c''] \<and>
   after_last_delimiter (CHR ''$'') ''a$b$c'' = ''c''"
  using CutMessage_bounded[of 2 "''a$b$c''" "CHR ''$''"]
        CutMessage_bounded[of 4 "''a$b$c''" "CHR ''$''"]
  by (simp add: CutMessage_fields after_last_delimiter_def)

text \<open>
  Claim C9. For every input \<open>s\<close>, delimiter \<open>d\<close> and \<open>n \<ge> 0\<close>, \<^verbatim>\<open>CutMessage\<close> returns fields
  that, joined with \<open>d\<close> as separator, are \<open>s\<close> again: in the mode that cuts everywhere
  (\<open>n = 0\<close>), the mode that does not scan (\<open>n = 1\<close>) and the bounded mode (\<open>n \<ge> 2\<close>).
\<close>

theorem CutMessage_join:
  assumes "0 \<le> n"
  shows "\<exists>fs. CutMessage s d n = Inr fs \<and> join d fs = s"
  using assms by (simp add: CutMessage_fields join_fields_from)

theorem CutMessage_join_witness:
  "(0::int) \<le> 0 \<and> CutMessage ''a,b,,c'' (CHR '','') 0 = Inr [''a'', ''b'', '''', ''c''] \<and>
   join (CHR '','') [''a'', ''b'', '''', ''c''] = ''a,b,,c'' \<and>
   (0::int) \<le> 1 \<and> CutMessage ''a,b,,c'' (CHR '','') 1 = Inr [''a,b,,c''] \<and>
   join (CHR '','') [''a,b,,c''] = ''a,b,,c'' \<and>
   (0::int) \<le> 2 \<and> CutMessage ''a,b,,c'' (CHR '','') 2 = Inr [''a'', ''b,,c''] \<and>
   join (CHR '','') [''a'', ''b,,c''] = ''a,b,,c''"
  using CutMessage_join[of 0 "''a,b,,c''" "CHR '',''"]
        CutMessage_join[of 1 "''a,b,,c''" "CHR '',''"]
        CutMessage_join[of 2 "''a,b,,c''" "CHR '',''"]
  by (simp add: CutMessage_fields)

section \<open>The command parser\<close>

lemma fields_from_one:
  "fields_from d 1 cur rest =
     (if d \<in> set rest
      then [cur @ takeWhile (\<lambda>c. c \<noteq> d) rest, tl (dropWhile (\<lambda>c. c \<noteq> d) rest)]
      else [cur @ rest])"
  by (induction rest arbitrary: cur) (auto simp: fields_from_zero)

lemma CutMessage_two:
  "CutMessage buf d 2 =
     Inr (if d \<in> set buf
          then [takeWhile (\<lambda>c. c \<noteq> d) buf, tl (dropWhile (\<lambda>c. c \<noteq> d) buf)]
          else [buf])"
  using fields_from_one[of d "[]" buf] by (simp add: CutMessage_fields)

lemma GetCommandTypeFromString_unknown:
  "GetCommandTypeFromString sz = WheatCommandType_unknown \<longleftrightarrow> sz \<notin> set tokens"
  by (auto simp: GetCommandTypeFromString_def tokens_def)

lemma Parse_pos_type: "Parse_pos rc payload = Inr c \<Longrightarrow> type c = type rc"
  by (auto simp: Parse_pos_def split: sum.splits)

lemma Parse_no_delimiter:
  "CHR ''$'' \<notin> set buf \<Longrightarrow> Parse rc buf = Inr (rc\<lparr>type := WheatCommandType_unknown\<rparr>)"
  by (simp add: Parse_def CutMessage_two)

lemma Parse_type:
  assumes "CHR ''$'' \<in> set buf" and "Parse rc buf = Inr c"
  shows "type c = GetCommandTypeFromString (takeWhile (\<lambda>c. c \<noteq> CHR ''$'') buf)"
  using assms
  by (auto simp: Parse_def CutMessage_two Let_def
           split: WheatCommandType.splits sum.splits dest: Parse_pos_type)

lemma Parse_unknown_token:
  assumes "CHR ''$'' \<in> set buf"
    and "GetCommandTypeFromString (takeWhile (\<lambda>c. c \<noteq> CHR ''$'') buf) = WheatCommandType_unknown"
  shows "Parse rc buf = Inr (rc\<lparr>type := WheatCommandType_unknown\<rparr>)"
  using assms by (simp add: Parse_def CutMessage_two)

text \<open>
  Claim C5. \<^verbatim>\<open>Parse\<close> returns a command of type \<^verbatim>\<open>unknown\<close> exactly when the frame has no
  \<^verbatim>\<open>$\<close> or its first field, the text before the first \<^verbatim>\<open>$\<close>, is not one of the tokens
  \<^verbatim>\<open>name\<close>, \<^verbatim>\<open>type\<close>, \<^verbatim>\<open>sleep\<close>, \<^verbatim>\<open>getup\<close>, \<^verbatim>\<open>chat\<close>, \<^verbatim>\<open>move\<close>, \<^verbatim>\<open>pos\<close>, compared byte by
  byte. So \<^verbatim>\<open>getup\<close> without delimiter is unknown and \<^verbatim>\<open>getup$\<close> is a getup command; the
  empty token and a token in another case are unknown.
\<close>

theorem Parse_unknown_iff:
  "((\<exists>c. Parse resultCommand buf = Inr c \<and> type c = WheatCommandType_unknown) \<longleftrightarrow>
      (CHR ''$'' \<notin> set buf \<or> takeWhile (\<lambda>c. c \<noteq> CHR ''$'') buf \<notin> set tokens)) \<and>
   Parse resultCommand ''getup'' = Inr (resultCommand\<lparr>type := WheatCommandType_unknown\<rparr>) \<and>
   Parse resultCommand ''getup$'' = Inr (resultCommand\<lparr>type := WheatCommandType_getup\<rparr>) \<and>
   Parse resultCommand ''$getup'' = Inr (resultCommand\<lparr>type := WheatCommandType_unknown\<rparr>) \<and>
   Parse resultCommand ''Getup$'' = Inr (resultCommand\<lparr>type := WheatCommandType_unknown\<rparr>)"
proof -
  have "(\<exists>c. Parse resultCommand buf = Inr c \<and> type c = WheatCommandType_unknown) \<longleftrightarrow>
        (CHR ''$'' \<notin> set buf \<or> takeWhile (\<lambda>c. c \<noteq> CHR ''$'') buf \<notin> set tokens)"
  proof (cases "CHR ''$'' \<in> set buf")
    case False
    then show ?thesis by (simp add: Parse_no_delimiter)
  next
    case True
    show ?thesis
    proof (cases "takeWhile (\<lambda>c. c \<noteq> CHR ''$'') buf \<in> set tokens")
      case False
      then show ?thesis
        using True Parse_unknown_token[OF True, of resultCommand]
        by (simp add: GetCommandTypeFromString_unknown)
    next
      case tok: True
      then have "type c \<noteq> WheatCommandType_unknown" if "Parse resultCommand buf = Inr c" for c
        using Parse_type[OF True that] by (simp add: GetCommandTypeFromString_unknown)
      then show ?thesis
        using True tok by auto
    qed
  qed
  moreover have "Parse resultCommand ''getup'' = Inr (resultCommand\<lparr>type := WheatCommandType_unknown\<rparr>)"
    by (simp add: Parse_no_delimiter)
  moreover have "Parse resultCommand ''getup$'' = Inr (resultCommand\<lparr>type := WheatCommandType_getup\<rparr>)"
    by (simp add: Parse_def CutMessage_two GetCommandTypeFromString_def)
  moreover have "Parse resultCommand ''$getup'' = Inr (resultCommand\<lparr>type := WheatCommandType_unknown\<rparr>)"
    by (simp add: Parse_def CutMessage_two GetCommandTypeFromString_def)
  moreover have "Parse resultCommand ''Getup$'' = Inr (resultCommand\<lparr>type := WheatCommandType_unknown\<rparr>)"
    by (simp add: Parse_def CutMessage_two GetCommandTypeFromString_def)
  ultimately show ?thesis by blast
qed

theorem Parse_unknown_iff_witness:
  "CHR ''$'' \<notin> set ''getup'' \<and>
   (\<exists>c. Parse command0 ''getup'' = Inr c \<and> type c = WheatCommandType_unknown) \<and>
   takeWhile (\<lambda>c. c \<noteq> CHR ''$'') ''sleepy$3'' \<notin> set tokens \<and>
   (\<exists>c. Parse command0 ''sleepy$3'' = Inr c \<and> type c = WheatCommandType_unknown) \<and>
   CHR ''$'' \<in> set ''sleep$3'' \<and> takeWhile (\<lambda>c. c \<noteq> CHR ''$'') ''sleep$3'' \<in> set tokens \<and>
   \<not> (\<exists>c. Parse command0 ''sleep$3'' = Inr c \<and> type c = WheatCommandType_unknown)"
  using Parse_unknown_iff[of command0 "''getup''"] Parse_unknown_iff[of command0 "''sleepy$3''"]
        Parse_unknown_iff[of command0 "''sleep$3''"]
  by (simp add: tokens_def)

text \<open>
  Claim C1. The claim is that every access \<^verbatim>\<open>Parse\<close> makes to the vector of comma fields
  of a \<^verbatim>\<open>move\<close> or \<^verbatim>\<open>pos\<close> payload is in bounds. The code does not check the size of that
  vector, as it does for the vector of the \<^verbatim>\<open>$\<close> split (WheatCommand.cpp:15): on the frames
  \<^verbatim>\<open>pos$5\<close>, \<^verbatim>\<open>pos$\<close> and \<^verbatim>\<open>move$7\<close> the vector has one element and \<^verbatim>\<open>vecPosCutTemp[1]\<close>
  (WheatCommand.cpp:47) reads past its end.
\<close>

theorem Parse_pos_out_of_bounds:
  "Parse resultCommand ''pos$5'' = Inl OutOfBounds \<and>
   Parse resultCommand ''pos$'' = Inl OutOfBounds \<and>
   Parse resultCommand ''move$7'' = Inl OutOfBounds"
  by (simp add: Parse_def Parse_pos_def CutMessage_two CutMessage_fields
        CutMessage_default_pieces_def GetCommandTypeFromString_def vector_at_def
        atoi_def isspace_def isdigit_def)



















text \<open>
  Claim C6, as amended. \<^verbatim>\<open>MakeMessage\<close> is a stub: for every command it returns the null
  pointer, and encodes nothing.
\<close>

theorem MakeMessage_null: "MakeMessage command = None"
  by (simp add: MakeMessage_def)

text \<open>
  Claim C6 as stated asks for a non-null byte sequence for every command; for the chat
  command with the text \<^verbatim>\<open>hi\<close> the result is the null pointer.
\<close>

theorem MakeMessage_chat_null:
  "MakeMessage \<lparr>type = WheatCommandType_chat, nParam = (\<lambda>i. 0), strParam = ''hi''\<rparr> = None"
  by (simp add: MakeMessage_def)

section \<open>The connection actor\<close>

lemma deliveries_append: "deliveries (es @ fs) = deliveries es @ deliveries fs"
  by (induction es rule: deliveries.induct) simp_all

lemma Reader_visit_id: "Reader_visit room_Sleep s cmd = (s', events, forward) \<Longrightarrow> m_id s' = m_id s"
  by (cases cmd) (auto split: if_splits)

lemma Reader_visit_no_delivery:
  "Reader_visit room_Sleep s cmd = (s', events, forward) \<Longrightarrow> deliveries events = []"
  by (cases cmd) (auto split: if_splits)

lemma Reader_visit_forward:
  "Reader_visit room_Sleep s cmd = (s', events, forward) \<Longrightarrow>
   forward = (case cmd of
                CmdSleep bed_id \<Rightarrow> room_Sleep (m_id s) bed_id
              | CmdVoteAgree \<Rightarrow> False
              | CmdVoteRefuse \<Rightarrow> False
              | _ \<Rightarrow> True)"
  by (cases cmd) (auto split: if_splits)

text \<open>
  Claim C3. For a frame that \<^verbatim>\<open>ParseCommand\<close> decodes as \<^verbatim>\<open>CmdSleep{bed}\<close>: if
  \<^verbatim>\<open>Room::Sleep\<close> answers false, the actor is unchanged (so is its \<^verbatim>\<open>m_bed_id\<close>) and nothing is
  handed to \<^verbatim>\<open>Room::Deliver\<close>; if it answers true, \<^verbatim>\<open>m_bed_id\<close> becomes \<open>bed\<close> and the raw
  frame is handed to \<^verbatim>\<open>Room::Deliver\<close>, once, after the call of \<^verbatim>\<open>Room::Sleep\<close>.
\<close>

theorem Reader_frame_sleep:
  assumes "ParseCommand (take n buffer) = Inr (CmdSleep bed)"
  shows "(\<not> room_Sleep (m_id s) bed \<longrightarrow>
            fst (Reader_frame ParseCommand room_Sleep s buffer n) = s \<and>
            snd (Reader_frame ParseCommand room_Sleep s buffer n) =
              [OnData (m_ip s) (n * 8), Log LOG_DEBUG, Room_Sleep (m_id s) bed] \<and>
            deliveries (snd (Reader_frame ParseCommand room_Sleep s buffer n)) = []) \<and>
         (room_Sleep (m_id s) bed \<longrightarrow>
            fst (Reader_frame ParseCommand room_Sleep s buffer n) = s\<lparr>m_bed_id := bed\<rparr> \<and>
            snd (Reader_frame ParseCommand room_Sleep s buffer n) =
              [OnData (m_ip s) (n * 8), Log LOG_DEBUG, Room_Sleep (m_id s) bed,
               Room_Deliver (m_id s) (take n buffer)] \<and>
            deliveries (snd (Reader_frame ParseCommand room_Sleep s buffer n)) =
              [(m_id s, take n buffer)])"
  using assms by (simp add: Reader_frame_def)

theorem Reader_frame_sleep_witness:
  "Reader_frame (\<lambda>msg. Inr (CmdSleep 5)) (\<lambda>i bed. False) sleeper0 ''sleep$5'' 7 =
     (sleeper0, [OnData (m_ip sleeper0) 56, Log LOG_DEBUG, Room_Sleep 10000 5]) \<and>
   Reader_frame (\<lambda>msg. Inr (CmdSleep 5)) (\<lambda>i bed. True) sleeper0 ''sleep$5'' 7 =
     (sleeper0\<lparr>m_bed_id := 5\<rparr>,
      [OnData (m_ip sleeper0) 56, Log LOG_DEBUG, Room_Sleep 10000 5,
       Room_Deliver 10000 ''sleep$5''])"
  using Reader_frame_sleep[of "\<lambda>msg. Inr (CmdSleep 5)" 7 "''sleep$5''" 5 "\<lambda>i bed. False" sleeper0]
        Reader_frame_sleep[of "\<lambda>msg. Inr (CmdSleep 5)" 7 "''sleep$5''" 5 "\<lambda>i bed. True" sleeper0]
  by (simp add: sleeper0_def prod_eq_iff)

text \<open>
  Claim C7. A frame decoded as \<^verbatim>\<open>CmdVoteAgree\<close> calls \<^verbatim>\<open>Room::Agree\<close> with the id of the
  connection, one decoded as \<^verbatim>\<open>CmdVoteRefuse\<close> calls \<^verbatim>\<open>Room::Refuse\<close> with it, and neither
  is handed to \<^verbatim>\<open>Room::Deliver\<close>. For every other command but \<^verbatim>\<open>CmdSleep\<close>, the unknown one
  included, the last call is \<^verbatim>\<open>Room::Deliver\<close> with the id and the bytes of the frame as
  they were read, and it is the only delivery.
\<close>

theorem Reader_frame_votes:
  assumes "ParseCommand (take n buffer) = Inr cmd"
  shows "(cmd = CmdVoteAgree \<longrightarrow>
            Reader_frame ParseCommand room_Sleep s buffer n =
              (s, [OnData (m_ip s) (n * 8), Log LOG_DEBUG, Room_Agree (m_id s)])) \<and>
         (cmd = CmdVoteRefuse \<longrightarrow>
            Reader_frame ParseCommand room_Sleep s buffer n =
              (s, [OnData (m_ip s) (n * 8), Log LOG_DEBUG, Room_Refuse (m_id s)])) \<and>
         (cmd = CmdVoteAgree \<or> cmd = CmdVoteRefuse \<longrightarrow>
            deliveries (snd (Reader_frame ParseCommand room_Sleep s buffer n)) = []) \<and>
         (cmd \<noteq> CmdVoteAgree \<and> cmd \<noteq> CmdVoteRefuse \<and> (\<forall>bed. cmd \<noteq> CmdSleep bed) \<longrightarrow>
            deliveries (snd (Reader_frame ParseCommand room_Sleep s buffer n)) =
              [(m_id s, take n buffer)] \<and>
            last (snd (Reader_frame ParseCommand room_Sleep s buffer n)) =
              Room_Deliver (m_id s) (take n buffer))"
proof -
  obtain s' events forward where v: "Reader_visit room_Sleep s cmd = (s', events, forward)"
    by (cases "Reader_visit room_Sleep s cmd") auto
  have frame: "Reader_frame ParseCommand room_Sleep s buffer n =
          (s', [OnData (m_ip s) (n * 8), Log LOG_DEBUG] @ events @
               (if forward then [Room_Deliver (m_id s) (take n buffer)] else []))"
    using assms v Reader_visit_id[OF v] by (simp add: Reader_frame_def)
  have "deliveries (snd (Reader_frame ParseCommand room_Sleep s buffer n)) =
          [(m_id s, take n buffer)] \<and>
        last (snd (Reader_frame ParseCommand room_Sleep s buffer n)) =
          Room_Deliver (m_id s) (take n buffer)"
    if "cmd \<noteq> CmdVoteAgree" "cmd \<noteq> CmdVoteRefuse" "\<forall>bed. cmd \<noteq> CmdSleep bed"
  proof -
    have "forward"
      using Reader_visit_forward[OF v] that by (cases cmd) simp_all
    then show ?thesis
      using frame Reader_visit_no_delivery[OF v] by (simp add: deliveries_append)
  qed
  moreover have "cmd = CmdVoteAgree \<longrightarrow>
            Reader_frame ParseCommand room_Sleep s buffer n =
              (s, [OnData (m_ip s) (n * 8), Log LOG_DEBUG, Room_Agree (m_id s)])"
    using assms by (simp add: Reader_frame_def)
  moreover have "cmd = CmdVoteRefuse \<longrightarrow>
            Reader_frame ParseCommand room_Sleep s buffer n =
              (s, [OnData (m_ip s) (n * 8), Log LOG_DEBUG, Room_Refuse (m_id s)])"
    using assms by (simp add: Reader_frame_def)
  moreover have "cmd = CmdVoteAgree \<or> cmd = CmdVoteRefuse \<longrightarrow>
            deliveries (snd (Reader_frame ParseCommand room_Sleep s buffer n)) = []"
    using assms by (auto simp: Reader_frame_def)
  ultimately show ?thesis by blast
qed

theorem Reader_frame_votes_witness:
  "Reader_frame (\<lambda>msg. Inr CmdVoteAgree) (\<lambda>i bed. True) sleeper0 ''agree$'' 6 =
     (sleeper0, [OnData (m_ip sleeper0) 48, Log LOG_DEBUG, Room_Agree 10000]) \<and>
   Reader_frame (\<lambda>msg. Inr CmdVoteRefuse) (\<lambda>i bed. True) sleeper0 ''refuse$'' 7 =
     (sleeper0, [OnData (m_ip sleeper0) 56, Log LOG_DEBUG, Room_Refuse 10000]) \<and>
   deliveries (snd (Reader_frame (\<lambda>msg. Inr CmdUnknown) (\<lambda>i bed. True) sleeper0 ''hello'' 5)) =
     [(10000, ''hello'')] \<and>
   deliveries (snd (Reader_frame (\<lambda>msg. Inr (CmdChat ''hi'')) (\<lambda>i bed. True) sleeper0 ''chat$hi'' 7)) =
     [(10000, ''chat$hi'')]"
  using Reader_frame_votes[of "\<lambda>msg. Inr CmdVoteAgree" 6 "''agree$''" CmdVoteAgree "\<lambda>i bed. True" sleeper0]
        Reader_frame_votes[of "\<lambda>msg. Inr CmdVoteRefuse" 7 "''refuse$''" CmdVoteRefuse "\<lambda>i bed. True" sleeper0]
        Reader_frame_votes[of "\<lambda>msg. Inr CmdUnknown" 5 "''hello''" CmdUnknown "\<lambda>i bed. True" sleeper0]
        Reader_frame_votes[of "\<lambda>msg. Inr (CmdChat ''hi'')" 7 "''chat$hi''" "CmdChat ''hi''" "\<lambda>i bed. True" sleeper0]
  by (simp add: sleeper0_def)

text \<open>
  Claim C4. \<^verbatim>\<open>Stop\<close> called on the actor that a call of \<^verbatim>\<open>Stop\<close> leaves changes nothing and
  causes no event; \<^verbatim>\<open>m_is_stoped\<close> holds after every call, and a call on a stopped actor is
  a no-op. Two calls in a row on an actor that was not stopped cause, together, the log
  line and one \<^verbatim>\<open>Room::Leave\<close>, one close of the socket, one cancellation of the timer and
  one \<^verbatim>\<open>OnConnectionClose\<close>.
\<close>

theorem Stop_idempotent:
  "Stop (fst (Stop s)) = (fst (Stop s), []) \<and>
   m_is_stoped (fst (Stop s)) \<and>
   (m_is_stoped s \<longrightarrow> Stop s = (s, [])) \<and>
   (\<not> m_is_stoped s \<longrightarrow>
      snd (Stop s) @ snd (Stop (fst (Stop s))) =
        [Log LOG_INFO, Room_Leave (m_id s), Sock_close, Timer_cancel, OnConnectionClose (m_ip s)] \<and>
      count_list (snd (Stop s) @ snd (Stop (fst (Stop s)))) (Room_Leave (m_id s)) = 1 \<and>
      count_list (snd (Stop s) @ snd (Stop (fst (Stop s)))) Sock_close = 1 \<and>
      count_list (snd (Stop s) @ snd (Stop (fst (Stop s)))) Timer_cancel = 1 \<and>
      count_list (snd (Stop s) @ snd (Stop (fst (Stop s)))) (OnConnectionClose (m_ip s)) = 1)"
  by (simp add: Stop_def)

theorem Stop_idempotent_witness:
  "\<not> m_is_stoped sleeper0 \<and>
   snd (Stop sleeper0) @ snd (Stop (fst (Stop sleeper0))) =
     [Log LOG_INFO, Room_Leave 10000, Sock_close, Timer_cancel, OnConnectionClose 2130706433] \<and>
   m_is_stoped (fst (Stop sleeper0)) \<and>
   Stop (fst (Stop sleeper0)) = (fst (Stop sleeper0), [])"
  using Stop_idempotent[of sleeper0]
  by (simp add: sleeper0_def Stop_def)

text \<open>
  Claim C8. \<^verbatim>\<open>MakeSelfInfo\<close> is the concatenation of four encodings, in this order: the
  announcement of the id, the name, the type, and one more, which is the bed when
  \<^verbatim>\<open>m_bed_id\<close> is not \<open>-1\<close> and the position when it is \<open>-1\<close>.
\<close>

theorem MakeSelfInfo_order:
  "\<exists>cmd. MakeSelfInfo PackCommandWithId s =
           concat (map (PackCommandWithId (m_id s))
             [CmdSleeper (m_id s), CmdName (m_name s), CmdType (m_sex s), cmd]) \<and>
         (m_bed_id s \<noteq> - 1 \<longrightarrow> cmd = CmdSleep (m_bed_id s)) \<and>
         (m_bed_id s = - 1 \<longrightarrow> cmd = CmdPos (m_pos s))"
  by (simp add: MakeSelfInfo_def Let_def)

theorem MakeSelfInfo_order_witness:
  "m_bed_id sleeper0 = - 1 \<and>
   MakeSelfInfo (\<lambda>i cmd. case cmd of CmdPos p \<Rightarrow> ''P'' | CmdSleep b \<Rightarrow> ''B'' | CmdName n \<Rightarrow> n | _ \<Rightarrow> ''.'') sleeper0
     = ''.Zed.P'' \<and>
   m_bed_id (sleeper0\<lparr>m_bed_id := 5\<rparr>) \<noteq> - 1 \<and>
   MakeSelfInfo (\<lambda>i cmd. case cmd of CmdPos p \<Rightarrow> ''P'' | CmdSleep b \<Rightarrow> ''B'' | CmdName n \<Rightarrow> n | _ \<Rightarrow> ''.'')
      (sleeper0\<lparr>m_bed_id := 5\<rparr>) = ''.Zed.B''"
  using MakeSelfInfo_order[of "\<lambda>i cmd. case cmd of CmdPos p \<Rightarrow> ''P'' | CmdSleep b \<Rightarrow> ''B'' | CmdName n \<Rightarrow> n | _ \<Rightarrow> ''.''" sleeper0]
        MakeSelfInfo_order[of "\<lambda>i cmd. case cmd of CmdPos p \<Rightarrow> ''P'' | CmdSleep b \<Rightarrow> ''B'' | CmdName n \<Rightarrow> n | _ \<Rightarrow> ''.''" "sleeper0\<lparr>m_bed_id := 5\<rparr>"]
  by (simp add: sleeper0_def)

end
